theory Spec2Isabelle
  imports Main
begin

section \<open>Paths\<close>

text \<open>
  The program handles paths as \<^verbatim>\<open>pathlib.Path\<close> objects. A path is its anchor (drive
  and root: \<^verbatim>\<open>/\<close> on POSIX, a drive letter with its root on Windows, empty for a relative
  path) and the names that follow it. The separator that \<^verbatim>\<open>str\<close> puts between the names is the one of
  the platform, \<^verbatim>\<open>os.sep\<close>; it is a parameter \<open>sep\<close> of every function that prints a
  path.
\<close>

record path =
  anchor :: string
  names :: "string list"

datatype error = ValueError

fun join_names :: "char \<Rightarrow> string list \<Rightarrow> string" where
  "join_names sep [] = []"
| "join_names sep [n] = n"
| "join_names sep (n # m # ms) = n @ sep # join_names sep (m # ms)"

text \<open>\<^verbatim>\<open>str(p)\<close>: the anchor, then the names joined by the separator; the empty path is \<^verbatim>\<open>.\<close>\<close>

definition str_path :: "char \<Rightarrow> path \<Rightarrow> string" where
  "str_path sep p =
     (if anchor p = [] \<and> names p = [] then ''.''
      else anchor p @ join_names sep (names p))"

text \<open>\<^verbatim>\<open>p / q\<close>: an anchored right operand replaces the left one.\<close>

definition joinpath :: "path \<Rightarrow> path \<Rightarrow> path" where
  "joinpath p q = (if anchor q \<noteq> [] then q else p\<lparr>names := names p @ names q\<rparr>)"

text \<open>
  \<^verbatim>\<open>p.relative_to(other)\<close>: the names of \<open>p\<close> after those of \<open>other\<close>; raises
  \<^verbatim>\<open>ValueError\<close> when \<open>p\<close> does not start with \<open>other\<close>.
\<close>

definition relative_to :: "path \<Rightarrow> path \<Rightarrow> error + path" where
  "relative_to p other =
     (if anchor p = anchor other \<and> take (length (names other)) (names p) = names other
      then Inr \<lparr>anchor = [], names = drop (length (names other)) (names p)\<rparr>
      else Inl ValueError)"

text \<open>\<^verbatim>\<open>s.replace(old, new)\<close> for one-character \<open>old\<close> and \<open>new\<close>.\<close>

definition str_replace :: "string \<Rightarrow> char \<Rightarrow> char \<Rightarrow> string" where
  "str_replace s old new = map (\<lambda>c. if c = old then new else c) s"

section \<open>The directory tree\<close>

text \<open>
  What a path points to. A symbolic link carries the type of the file it resolves to
  (\<open>None\<close> for a dangling link). \<^verbatim>\<open>Path.is_file()\<close> follows links: it holds for a
  regular file and for a link that resolves to one.
\<close>

datatype file_type = Regular | Directory | Device | Fifo | Socket

datatype file_kind = Plain file_type | Symlink "file_type option"

fun is_file :: "file_kind \<Rightarrow> bool" where
  "is_file (Plain t) = (t = Regular)"
| "is_file (Symlink target) = (target = Some Regular)"

fun is_symlink :: "file_kind \<Rightarrow> bool" where
  "is_symlink (Plain t) = False"
| "is_symlink (Symlink target) = True"

text \<open>
  A snapshot of the tree below the root directory: the entries that
  \<^verbatim>\<open>root_dir.rglob('*')\<close> yields, in the order it yields them, each as its names below
  the root and its kind; and the text read from \<^verbatim>\<open>.gitignore\<close> at the root when
  \<^verbatim>\<open>is_file()\<close> holds of it (\<open>None\<close> otherwise). \<^verbatim>\<open>rglob\<close> yields each entry as a
  child path of the root.
\<close>

record tree =
  gitignore :: "string option"
  entries :: "(string list \<times> file_kind) list"

definition rglob :: "tree \<Rightarrow> path \<Rightarrow> (path \<times> file_kind) list" where
  "rglob t root_dir = map (\<lambda>(ns, k). (root_dir\<lparr>names := names root_dir @ ns\<rparr>, k)) (entries t)"

section \<open>Gathering the files\<close>

text \<open>
  \<^verbatim>\<open>gather_files_to_include\<close> (lines 38 to 52). The argument \<open>spec_match\<close> is the
  \<^verbatim>\<open>match_file\<close> method of the \<^verbatim>\<open>PathSpec\<close> that the function receives. Besides the
  list it builds, the state of the loop records the strings handed to the matcher, in
  call order. A \<^verbatim>\<open>ValueError\<close> of \<^verbatim>\<open>relative_to\<close> ends the loop.
\<close>

record gather_state =
  files_to_include :: "(path \<times> path) list"
  match_calls :: "string list"

fun gather_loop ::
  "char \<Rightarrow> path \<Rightarrow> (string \<Rightarrow> bool) \<Rightarrow> (path \<times> file_kind) list \<Rightarrow> gather_state
     \<Rightarrow> error + gather_state" where
  "gather_loop sep root_dir spec_match [] st = Inr st"
| "gather_loop sep root_dir spec_match ((path_obj, k) # rest) st =
     (if is_file k then
        (case relative_to path_obj root_dir of
           Inl e \<Rightarrow> Inl e
         | Inr relative_path \<Rightarrow>
             (let relative_path_str = str_replace (str_path sep relative_path) sep (CHR ''/'');
                  st1 = st\<lparr>match_calls := match_calls st @ [relative_path_str]\<rparr>
              in if \<not> spec_match relative_path_str
                 then gather_loop sep root_dir spec_match rest
                        (st1\<lparr>files_to_include :=
                               files_to_include st1 @ [(path_obj, relative_path)]\<rparr>)
                 else gather_loop sep root_dir spec_match rest st1))
      else gather_loop sep root_dir spec_match rest st)"

definition gather_run ::
  "char \<Rightarrow> tree \<Rightarrow> path \<Rightarrow> (string \<Rightarrow> bool) \<Rightarrow> error + gather_state" where
  "gather_run sep t root_dir spec_match =
     gather_loop sep root_dir spec_match (rglob t root_dir)
       \<lparr>files_to_include = [], match_calls = []\<rparr>"

definition gather_files_to_include ::
  "char \<Rightarrow> tree \<Rightarrow> path \<Rightarrow> (string \<Rightarrow> bool) \<Rightarrow> error + (path \<times> path) list" where
  "gather_files_to_include sep t root_dir spec_match =
     map_sum id files_to_include (gather_run sep t root_dir spec_match)"

text \<open>The string that line 47 computes for the entry with the names \<open>ns\<close> below the root.\<close>

definition relative_path_str :: "char \<Rightarrow> string list \<Rightarrow> string" where
  "relative_path_str sep ns =
     str_replace (str_path sep \<lparr>anchor = [], names = ns\<rparr>) sep (CHR ''/'')"

text \<open>
  The entries that the loop keeps, and the pair it appends for one: the path that
  \<^verbatim>\<open>rglob\<close> yielded and the path relative to the root.
\<close>

definition kept :: "char \<Rightarrow> (string \<Rightarrow> bool) \<Rightarrow> string list \<times> file_kind \<Rightarrow> bool" where
  "kept sep spec_match e = (is_file (snd e) \<and> \<not> spec_match (relative_path_str sep (fst e)))"

definition file_entry :: "path \<Rightarrow> string list \<times> file_kind \<Rightarrow> path \<times> path" where
  "file_entry root_dir e =
     (root_dir\<lparr>names := names root_dir @ fst e\<rparr>, \<lparr>anchor = [], names = fst e\<rparr>)"

section \<open>The pattern matcher\<close>

text \<open>
  The program calls
  \<^verbatim>\<open>pathspec.PathSpec.from_lines('gitwildmatch', lines)\<close> and \<^verbatim>\<open>spec.match_file(path)\<close> of the
  third-party \<^verbatim>\<open>pathspec\<close> package, whose code is not part of the repository. The
  definitions of this section follow sections 3 and 4.1 of the specification: a Pattern
  has its raw text, a negation flag (leading \<^verbatim>\<open>!\<close>), anchoring (a slash other than the
  trailing one), a directory-only flag (trailing slash) and glob segments; \<^verbatim>\<open>*\<close> and
  \<^verbatim>\<open>?\<close> match within one path segment, a segment \<^verbatim>\<open>**\<close> matches any number of
  segments; a pattern with no embedded slash matches a path segment at any depth, a
  pattern with one matches from the root; a matched directory takes everything beneath
  it; the patterns are evaluated in order and the last one that matches decides.
\<close>

text \<open>
  Modelled from the spec: the Pattern of section 3, which \<^verbatim>\<open>pathspec\<close> builds for a line
  (its class is not in the repository).
\<close>

record pattern =
  raw :: string
  negated :: bool
  anchored :: bool
  dir_only :: bool
  segs :: "string list"

text \<open>\<^verbatim>\<open>s.split('/')\<close>.\<close>

fun split_slash :: "string \<Rightarrow> string list" where
  "split_slash [] = [[]]"
| "split_slash (c # cs) =
     (if c = CHR ''/'' then [] # split_slash cs
      else (case split_slash cs of [] \<Rightarrow> [[c]] | w # ws \<Rightarrow> (c # w) # ws))"

text \<open>
  Modelled from the spec: parsing one line into a Pattern (done inside
  \<^verbatim>\<open>PathSpec.from_lines\<close>, not in the repository). A leading \<^verbatim>\<open>!\<close> negates, a
  trailing slash makes the pattern directory-only, any other slash anchors it.
\<close>

definition parse_pattern :: "string \<Rightarrow> pattern" where
  "parse_pattern line =
     (let neg = (case line of [] \<Rightarrow> False | c # _ \<Rightarrow> c = CHR ''!'');
          body = (if neg then tl line else line);
          dironly = (body \<noteq> [] \<and> last body = CHR ''/'');
          body1 = (if dironly then butlast body else body);
          body2 = (case body1 of [] \<Rightarrow> [] | c # cs \<Rightarrow> if c = CHR ''/'' then cs else body1)
      in \<lparr>raw = line, negated = neg, anchored = (CHR ''/'' \<in> set body1),
           dir_only = dironly, segs = split_slash body2\<rparr>)"

text \<open>
  Modelled from the spec: one glob segment against one path segment (the matching of
  \<^verbatim>\<open>pathspec\<close>, not in the repository). \<^verbatim>\<open>*\<close> matches any run of characters of the
  segment, \<^verbatim>\<open>?\<close> any one character.
\<close>

fun glob :: "string \<Rightarrow> string \<Rightarrow> bool" where
  "glob [] s = (s = [])"
| "glob (p # ps) [] = (p = CHR ''*'' \<and> glob ps [])"
| "glob (p # ps) (c # cs) =
     (if p = CHR ''*'' then glob ps (c # cs) \<or> glob (p # ps) cs
      else if p = CHR ''?'' then glob ps cs
      else p = c \<and> glob ps cs)"

text \<open>
  Modelled from the spec: the segments of a pattern against the segments of a path; a
  segment \<^verbatim>\<open>**\<close> stands for any number of path segments.
\<close>

fun seg_match :: "string list \<Rightarrow> string list \<Rightarrow> bool" where
  "seg_match [] ss = (ss = [])"
| "seg_match (p # ps) [] = (p = ''**'' \<and> seg_match ps [])"
| "seg_match (p # ps) (s # ss) =
     (if p = ''**'' then seg_match ps (s # ss) \<or> seg_match (p # ps) ss
      else glob p s \<and> seg_match ps ss)"

text \<open>
  Modelled from the spec: the paths a pattern may match to decide on \<open>ss\<close>, which are
  \<open>ss\<close> itself and the directories above it. A directory-only pattern matches
  directories only, so \<open>ss\<close> itself counts only when it is a directory.
\<close>

definition candidates :: "bool \<Rightarrow> bool \<Rightarrow> string list \<Rightarrow> string list list" where
  "candidates dironly is_directory ss =
     map (\<lambda>n. take n ss)
       [1 ..< (if dironly \<and> \<not> is_directory then length ss else Suc (length ss))]"

text \<open>Modelled from the spec: a pattern that is not anchored matches at any depth.\<close>

definition effective_segs :: "pattern \<Rightarrow> string list" where
  "effective_segs p = (if anchored p then segs p else ''**'' # segs p)"

text \<open>Modelled from the spec: whether one pattern matches a path, given by its segments.\<close>

definition pattern_matches :: "pattern \<Rightarrow> string list \<Rightarrow> bool \<Rightarrow> bool" where
  "pattern_matches p ss is_directory =
     list_ex (seg_match (effective_segs p)) (candidates (dir_only p) is_directory ss)"

text \<open>
  Modelled from the spec: \<^verbatim>\<open>matches\<close> of section 4.1 (\<^verbatim>\<open>PathSpec.match_file\<close>, not in
  the repository). Every pattern is evaluated in order; one that matches sets the
  excluded state when it is a normal pattern and clears it when it is negated; the
  final state is the answer. The program asks about files only.
\<close>

fun matches_from :: "bool \<Rightarrow> pattern list \<Rightarrow> string list \<Rightarrow> bool \<Rightarrow> bool" where
  "matches_from excluded [] ss is_directory = excluded"
| "matches_from excluded (p # ps) ss is_directory =
     matches_from (if pattern_matches p ss is_directory then \<not> negated p else excluded)
       ps ss is_directory"

definition matches :: "pattern list \<Rightarrow> string \<Rightarrow> bool \<Rightarrow> bool" where
  "matches ps relative_path is_directory =
     matches_from False ps (split_slash relative_path) is_directory"

definition match_file :: "pattern list \<Rightarrow> string \<Rightarrow> bool" where
  "match_file ps file = matches ps file False"

text \<open>
  Modelled from the spec: building the pattern set from lines
  (\<^verbatim>\<open>PathSpec.from_lines\<close>, not in the repository). Trailing white space, the line
  ending with it, is dropped; a line that is then empty or begins with \<^verbatim>\<open>#\<close> gives no
  pattern. White space at the start of a line is kept: such a line does not begin with
  \<^verbatim>\<open>#\<close>.
\<close>

definition is_space :: "char \<Rightarrow> bool" where
  "is_space c = (c \<in> set [CHR 0x20, CHR 0x09, CHR 0x0A, CHR 0x0B, CHR 0x0C, CHR 0x0D])"

definition rstrip :: "string \<Rightarrow> string" where
  "rstrip s = rev (dropWhile is_space (rev s))"

definition is_rule :: "string \<Rightarrow> bool" where
  "is_rule s = (case s of [] \<Rightarrow> False | c # _ \<Rightarrow> c \<noteq> CHR ''#'')"

definition from_lines :: "string list \<Rightarrow> pattern list" where
  "from_lines lines = map parse_pattern (filter is_rule (map rstrip lines))"

section \<open>Loading the ignore file\<close>

text \<open>\<^verbatim>\<open>f.readlines()\<close>: the lines of a text, each with its line ending.\<close>

fun readlines :: "string \<Rightarrow> string list" where
  "readlines [] = []"
| "readlines (c # cs) =
     (if c = CHR 0x0A then [c] # readlines cs
      else (case readlines cs of [] \<Rightarrow> [[c]] | l # ls \<Rightarrow> (c # l) # ls))"

text \<open>\<^verbatim>\<open>load_gitignore\<close> (lines 25 to 36).\<close>

definition default_ignores :: "string list" where
  "default_ignores = [''.git/'', ''__pycache__/'', ''*.pyc'', ''.DS_Store'']"

definition load_gitignore :: "tree \<Rightarrow> pattern list" where
  "load_gitignore t =
     (let patterns = (case gitignore t of None \<Rightarrow> [] | Some text \<Rightarrow> readlines text)
      in from_lines (patterns @ default_ignores))"

text \<open>The four default lines as patterns.\<close>

definition default_patterns :: "pattern list" where
  "default_patterns =
     [\<lparr>raw = ''.git/'', negated = False, anchored = False, dir_only = True, segs = [''.git'']\<rparr>,
      \<lparr>raw = ''__pycache__/'', negated = False, anchored = False, dir_only = True,
         segs = [''__pycache__'']\<rparr>,
      \<lparr>raw = ''*.pyc'', negated = False, anchored = False, dir_only = False, segs = [''*.pyc'']\<rparr>,
      \<lparr>raw = ''.DS_Store'', negated = False, anchored = False, dir_only = False,
         segs = [''.DS_Store'']\<rparr>]"

text \<open>A blank line holds white space only; a comment line begins with \<^verbatim>\<open>#\<close>.\<close>

definition is_blank :: "string \<Rightarrow> bool" where
  "is_blank l = list_all is_space l"

definition is_comment :: "string \<Rightarrow> bool" where
  "is_comment l = (case l of [] \<Rightarrow> False | c # _ \<Rightarrow> c = CHR ''#'')"

section \<open>The run\<close>

text \<open>
  What a run shows and writes, in order. The messages of \<^verbatim>\<open>main\<close> are named by what
  they say; the closing summary carries the number of files and the output file name
  (the elapsed time is left out). The output document is the list of its file headings.
  A run is given by the platform's separator, the resolved directory argument and
  whether it is a directory, the \<^verbatim>\<open>--output\<close> argument, whether the output file can be
  opened for writing, and the tree below the directory.
\<close>

datatype message =
    DirectoryNotFound string
  | StartingToProcess string
  | NoFilesToInclude
  | FoundFiles nat
  | ErrorWriting string
  | Complete nat string

datatype event = Print message | WriteFile string "string list"

record run =
  os_sep :: char
  directory :: path
  directory_is_dir :: bool
  output_arg :: "string option"
  output_writable :: bool
  snapshot :: tree

text \<open>
  \<^verbatim>\<open>write_codebase_to_file\<close> (lines 54 to 88): the document when the output file can be
  opened, the error message otherwise.
\<close>

definition write_codebase_to_file ::
  "char \<Rightarrow> bool \<Rightarrow> (path \<times> path) list \<Rightarrow> string \<Rightarrow> event list" where
  "write_codebase_to_file sep writable files_list output_filename =
     (if writable
      then [WriteFile output_filename
              (map (\<lambda>(full_path, relative_path).
                      str_replace (str_path sep relative_path) sep (CHR ''/'')) files_list)]
      else [Print (ErrorWriting output_filename)])"

text \<open>\<^verbatim>\<open>p.name\<close>: the last name, empty when there is none.\<close>

definition path_name :: "path \<Rightarrow> string" where
  "path_name p = (case names p of [] \<Rightarrow> [] | _ \<Rightarrow> last (names p))"

text \<open>\<^verbatim>\<open>main\<close> (lines 90 to 140).\<close>

definition main :: "run \<Rightarrow> error + event list" where
  "main r =
     (if \<not> directory_is_dir r
      then Inr [Print (DirectoryNotFound (str_path (os_sep r) (directory r)))]
      else
        (let project_name = path_name (directory r);
             output_filename =
               (case output_arg r of
                  None \<Rightarrow> project_name @ ''_codebase.md''
                | Some n \<Rightarrow> if n = [] then project_name @ ''_codebase.md'' else n);
             started = [Print (StartingToProcess (str_path (os_sep r) (directory r)))];
             spec = load_gitignore (snapshot r)
         in case gather_files_to_include (os_sep r) (snapshot r) (directory r) (match_file spec) of
              Inl e \<Rightarrow> Inl e
            | Inr files \<Rightarrow>
                if files = []
                then Inr (started @ [Print NoFilesToInclude])
                else Inr (started @ [Print (FoundFiles (length files))]
                          @ write_codebase_to_file (os_sep r) (output_writable r)
                              files output_filename
                          @ [Print (Complete (length files) output_filename)])))"

text \<open>The files a run has written.\<close>

fun output_files :: "event list \<Rightarrow> string list" where
  "output_files [] = []"
| "output_files (Print m # evs) = output_files evs"
| "output_files (WriteFile name document # evs) = name # output_files evs"

section \<open>Examples\<close>

definition example_root :: path where
  "example_root = \<lparr>anchor = ''/'', names = [''home'', ''proj'']\<rparr>"

definition symlink_tree :: tree where
  "symlink_tree =
     \<lparr>gitignore = None,
      entries = [([''docs''], Plain Directory),
                 ([''docs'', ''a.md''], Plain Regular),
                 ([''latest.md''], Symlink (Some Regular)),
                 ([''tty''], Plain Device)]\<rparr>"

definition backslash_name_tree :: tree where
  "backslash_name_tree =
     \<lparr>gitignore = None, entries = [([[CHR ''a'', CHR 0x5C, CHR ''b'']], Plain Regular)]\<rparr>"

definition mixed_names_tree :: tree where
  "mixed_names_tree =
     \<lparr>gitignore = None,
      entries = [([[CHR ''a'', CHR 0x5C, CHR ''b'']], Plain Regular),
                 ([''sub''], Plain Directory),
                 ([''sub'', ''c''], Plain Regular)]\<rparr>"

definition nested_tree :: tree where
  "nested_tree =
     \<lparr>gitignore = None,
      entries = [([''sub''], Plain Directory),
                 ([''sub'', ''dir''], Plain Directory),
                 ([''sub'', ''dir'', ''file.txt''], Plain Regular)]\<rparr>"

definition windows_root :: path where
  "windows_root = \<lparr>anchor = ''C:'' @ [CHR 0x5C], names = [''proj'']\<rparr>"

definition ignore_text :: string where
  "ignore_text =
     ''# logs'' @ [CHR 0x0A] @ ''*.log'' @ [CHR 0x0A] @ [CHR 0x0A] @ ''build/'' @ [CHR 0x0A]"

definition ignore_tree :: tree where
  "ignore_tree =
     \<lparr>gitignore = Some ignore_text,
      entries = [([''.gitignore''], Plain Regular),
                 ([''a.py''], Plain Regular),
                 ([''build''], Plain Directory),
                 ([''build'', ''out.log''], Plain Regular)]\<rparr>"

definition negated_inside_text :: string where
  "negated_inside_text = ''build/'' @ [CHR 0x0A] @ ''!build/keep.txt'' @ [CHR 0x0A]"

definition negated_inside_tree :: tree where
  "negated_inside_tree =
     \<lparr>gitignore = Some negated_inside_text,
      entries = [([''.gitignore''], Plain Regular),
                 ([''build''], Plain Directory),
                 ([''build'', ''keep.txt''], Plain Regular),
                 ([''build'', ''out.txt''], Plain Regular)]\<rparr>"

definition git_tree :: tree where
  "git_tree =
     \<lparr>gitignore = None,
      entries = [([''.git''], Plain Directory),
                 ([''.git'', ''objects''], Plain Directory),
                 ([''.git'', ''objects'', ''ab''], Plain Regular),
                 ([''a.py''], Plain Regular)]\<rparr>"

definition negation_text :: string where
  "negation_text = ''*.txt'' @ [CHR 0x0A] @ ''build/'' @ [CHR 0x0A] @ ''!keep.txt'' @ [CHR 0x0A]"

definition negation_tree :: tree where
  "negation_tree =
     \<lparr>gitignore = Some negation_text,
      entries = [([''.gitignore''], Plain Regular),
                 ([''build''], Plain Directory),
                 ([''build'', ''keep.txt''], Plain Regular),
                 ([''build'', ''out.txt''], Plain Regular),
                 ([''keep.txt''], Plain Regular),
                 ([''notes.txt''], Plain Regular)]\<rparr>"

definition missing_run :: run where
  "missing_run =
     \<lparr>os_sep = CHR ''/'', directory = \<lparr>anchor = ''/'', names = [''nowhere'']\<rparr>,
      directory_is_dir = False, output_arg = None, output_writable = True,
      snapshot = \<lparr>gitignore = None, entries = []\<rparr>\<rparr>"

definition all_ignored_run :: run where
  "all_ignored_run =
     \<lparr>os_sep = CHR ''/'', directory = example_root,
      directory_is_dir = True, output_arg = Some ''out.md'', output_writable = True,
      snapshot = \<lparr>gitignore = Some (''*'' @ [CHR 0x0A]),
                  entries = [([''.gitignore''], Plain Regular),
                             ([''src''], Plain Directory),
                             ([''src'', ''a.py''], Plain Regular)]\<rparr>\<rparr>"

section \<open>Lemmas on the walk, the loader and the matcher\<close>

lemma relative_to_child:
  "relative_to (root_dir\<lparr>names := names root_dir @ ns\<rparr>) root_dir
     = Inr \<lparr>anchor = [], names = ns\<rparr>"
  by (simp add: relative_to_def)

lemma gather_loop_children:
  "gather_loop sep root_dir spec_match
     (map (\<lambda>(ns, k). (root_dir\<lparr>names := names root_dir @ ns\<rparr>, k)) es) st
   = Inr \<lparr>files_to_include =
            files_to_include st @ map (file_entry root_dir) (filter (kept sep spec_match) es),
          match_calls =
            match_calls st @ map (relative_path_str sep \<circ> fst) (filter (is_file \<circ> snd) es)\<rparr>"
proof (induction es arbitrary: st)
  case Nil
  then show ?case by simp
next
  case (Cons e es)
  obtain ns k where e: "e = (ns, k)" by (cases e)
  show ?case
  proof (cases "is_file k")
    case False
    then show ?thesis
      using Cons.IH [of st] by (simp add: e kept_def)
  next
    case True
    show ?thesis
    proof (cases "spec_match (relative_path_str sep ns)")
      case True
      with \<open>is_file k\<close> show ?thesis
        using Cons.IH [of "st\<lparr>match_calls := match_calls st @ [relative_path_str sep ns]\<rparr>"]
        by (simp add: e kept_def relative_to_child relative_path_str_def Let_def)
    next
      case False
      with \<open>is_file k\<close> show ?thesis
        using Cons.IH [of "st\<lparr>match_calls := match_calls st @ [relative_path_str sep ns],
                             files_to_include := files_to_include st @
                               [(root_dir\<lparr>names := names root_dir @ ns\<rparr>,
                                 \<lparr>anchor = [], names = ns\<rparr>)]\<rparr>"]
        by (simp add: e kept_def relative_to_child relative_path_str_def Let_def file_entry_def)
    qed
  qed
qed

lemma gather_run_eq:
  "gather_run sep t root_dir spec_match
   = Inr \<lparr>files_to_include = map (file_entry root_dir) (filter (kept sep spec_match) (entries t)),
          match_calls = map (relative_path_str sep \<circ> fst) (filter (is_file \<circ> snd) (entries t))\<rparr>"
  by (simp add: gather_run_def rglob_def gather_loop_children)

lemma gather_files_to_include_eq:
  "gather_files_to_include sep t root_dir spec_match
   = Inr (map (file_entry root_dir) (filter (kept sep spec_match) (entries t)))"
  by (simp add: gather_files_to_include_def gather_run_eq)

lemma is_file_iff: "is_file k \<longleftrightarrow> k = Plain Regular \<or> k = Symlink (Some Regular)"
  by (cases k) auto

lemma str_replace_absent: "old \<noteq> new \<Longrightarrow> old \<notin> set (str_replace s old new)"
  by (auto simp: str_replace_def)

lemma str_replace_set:
  "c \<in> set (str_replace s old new) \<Longrightarrow> c = new \<or> (c \<in> set s \<and> c \<noteq> old)"
  by (auto simp: str_replace_def split: if_splits)

lemma str_replace_id: "old \<notin> set s \<Longrightarrow> str_replace s old new = s"
  by (induction s) (auto simp: str_replace_def)

lemma str_replace_append:
  "str_replace (s @ u) old new = str_replace s old new @ str_replace u old new"
  by (simp add: str_replace_def)

lemma set_join_names: "c \<in> set (join_names sep ns) \<Longrightarrow> c = sep \<or> (\<exists>n\<in>set ns. c \<in> set n)"
  by (induction sep ns rule: join_names.induct) auto

lemma join_names_replace:
  "\<forall>n\<in>set ns. sep \<notin> set n \<Longrightarrow>
     str_replace (join_names sep ns) sep (CHR ''/'') = join_names (CHR ''/'') ns"
proof (induction sep ns rule: join_names.induct)
  case (1 sep)
  show ?case by (simp add: str_replace_def)
next
  case (2 sep n)
  then show ?case by (simp add: str_replace_id)
next
  case (3 sep n m ms)
  have "str_replace [sep] sep (CHR ''/'') = [CHR ''/'']"
    by (simp add: str_replace_def)
  with 3 show ?case
    using str_replace_append [of n "sep # join_names sep (m # ms)" sep "CHR ''/''"]
          str_replace_append [of "[sep]" "join_names sep (m # ms)" sep "CHR ''/''"]
    by (simp add: str_replace_id)
qed

lemma relative_path_str_join:
  "ns \<noteq> [] \<Longrightarrow> \<forall>n\<in>set ns. sep \<notin> set n \<Longrightarrow>
     relative_path_str sep ns = join_names (CHR ''/'') ns"
  by (simp add: relative_path_str_def str_path_def join_names_replace)

lemma split_slash_plain: "CHR ''/'' \<notin> set n \<Longrightarrow> split_slash n = [n]"
  by (induction n) auto

lemma split_slash_first:
  "CHR ''/'' \<notin> set n \<Longrightarrow> split_slash (n @ CHR ''/'' # s) = n # split_slash s"
  by (induction n) auto

lemma split_slash_join:
  "ns \<noteq> [] \<Longrightarrow> \<forall>n\<in>set ns. CHR ''/'' \<notin> set n \<Longrightarrow> split_slash (join_names (CHR ''/'') ns) = ns"
  by (induction "CHR ''/''" ns rule: join_names.induct)
     (simp_all add: split_slash_plain split_slash_first)

lemma gathered_entry:
  assumes "(a, r) \<in> set (map (file_entry root_dir) (filter (kept sep spec_match) es))"
  shows "\<exists>k. (names r, k) \<in> set es \<and> is_file k
           \<and> \<not> spec_match (relative_path_str sep (names r))
           \<and> a = root_dir\<lparr>names := names root_dir @ names r\<rparr>
           \<and> r = \<lparr>anchor = [], names = names r\<rparr>"
  using assms by (auto simp: file_entry_def kept_def)

lemma from_lines_append: "from_lines (ls @ ms) = from_lines ls @ from_lines ms"
  by (simp add: from_lines_def)

lemma raw_parse_pattern: "raw (parse_pattern l) = l"
  by (simp add: parse_pattern_def Let_def)

lemma raw_from_lines: "map raw (from_lines ls) = filter is_rule (map rstrip ls)"
  by (simp add: from_lines_def comp_def raw_parse_pattern)

lemma from_lines_defaults: "from_lines default_ignores = default_patterns"
  by (simp add: from_lines_def default_ignores_def default_patterns_def rstrip_def is_space_def
        is_rule_def parse_pattern_def Let_def)

lemma rstrip_blank: "is_blank l \<Longrightarrow> rstrip l = []"
proof -
  assume "is_blank l"
  then have "\<forall>c\<in>set (rev l). is_space c"
    by (simp add: is_blank_def list_all_iff)
  then have "dropWhile is_space (rev l) = []"
    by simp
  then show ?thesis
    by (simp add: rstrip_def del: dropWhile_eq_Nil_conv)
qed

lemma rstrip_keeps_head:
  assumes "\<not> is_space x"
  shows "\<exists>v. rstrip (x # xs) = x # v"
proof -
  have "dropWhile is_space (rev xs @ [x]) = dropWhile is_space (rev xs) @ [x]
        \<or> dropWhile is_space (rev xs @ [x]) = [x]"
    using assms by (simp add: dropWhile_append)
  then show ?thesis
  proof
    assume "dropWhile is_space (rev xs @ [x]) = dropWhile is_space (rev xs) @ [x]"
    then have "rstrip (x # xs) = x # rev (dropWhile is_space (rev xs))"
      by (simp add: rstrip_def)
    then show ?thesis by blast
  next
    assume "dropWhile is_space (rev xs @ [x]) = [x]"
    then have "rstrip (x # xs) = [x]"
      by (simp add: rstrip_def)
    then show ?thesis by blast
  qed
qed

lemma rstrip_comment: "is_comment l \<Longrightarrow> \<not> is_rule (rstrip l)"
proof -
  assume "is_comment l"
  then obtain r where l: "l = CHR ''#'' # r"
    by (auto simp: is_comment_def split: list.splits)
  have "\<not> is_space (CHR ''#'')"
    by (simp add: is_space_def)
  from rstrip_keeps_head [OF this, of r] have "\<exists>u. rstrip l = CHR ''#'' # u"
    by (simp add: l)
  then show ?thesis
    by (auto simp: is_rule_def)
qed

lemma from_lines_filter:
  "from_lines (filter (\<lambda>l. \<not> is_blank l \<and> \<not> is_comment l) ls) = from_lines ls"
proof (induction ls)
  case Nil
  show ?case by simp
next
  case (Cons l ls)
  have "\<not> is_rule (rstrip l)" if "is_blank l \<or> is_comment l"
    using that rstrip_blank rstrip_comment by (auto simp: is_rule_def)
  with Cons show ?case
    by (auto simp: from_lines_def)
qed

lemma rstrip_not_blank:
  "is_rule (rstrip l) \<Longrightarrow> \<not> is_blank (rstrip l) \<and> \<not> is_comment (rstrip l)"
proof -
  assume rule: "is_rule (rstrip l)"
  let ?u = "dropWhile is_space (rev l)"
  have ne: "?u \<noteq> []"
  proof
    assume "?u = []"
    then have "rstrip l = []"
      by (simp add: rstrip_def del: dropWhile_eq_Nil_conv)
    with rule show False
      by (simp add: is_rule_def)
  qed
  then have "\<not> is_space (hd ?u)"
    by (rule hd_dropWhile)
  moreover have "hd ?u \<in> set (rstrip l)"
    using ne by (simp add: rstrip_def del: dropWhile_eq_Nil_conv)
  ultimately have "\<not> is_blank (rstrip l)"
    by (auto simp: is_blank_def list_all_iff)
  moreover have "\<not> is_comment (rstrip l)"
    using rule by (auto simp: is_rule_def is_comment_def split: list.splits)
  ultimately show ?thesis by blast
qed

lemma from_lines_rules:
  "list_all (\<lambda>p. \<not> is_blank (raw p) \<and> \<not> is_comment (raw p)) (from_lines ls)"
  by (induction ls) (auto simp: from_lines_def raw_parse_pattern rstrip_not_blank)

lemma matches_from_append:
  "matches_from b (xs @ ys) ss d = matches_from (matches_from b xs ss d) ys ss d"
  by (induction xs arbitrary: b) simp_all

lemma matches_from_stays_excluded:
  "\<forall>q\<in>set ys. negated q \<longrightarrow> \<not> pattern_matches q ss d \<Longrightarrow> matches_from True ys ss d"
  by (induction ys) auto

lemma matches_from_stays_included:
  "\<forall>r\<in>set ys. pattern_matches r ss d \<longrightarrow> negated r \<Longrightarrow> \<not> matches_from False ys ss d"
  by (induction ys) auto

lemma pattern_matches_beneath:
  assumes "seg_match (effective_segs p) dir" and "dir \<noteq> []" and "rest \<noteq> []"
  shows "pattern_matches p (dir @ rest) d"
proof -
  let ?n = "if dir_only p \<and> \<not> d then length (dir @ rest) else Suc (length (dir @ rest))"
  have "length dir \<in> set [1 ..< ?n]"
    using assms(2,3) by (auto simp: Suc_le_eq)
  then have "take (length dir) (dir @ rest) \<in> (\<lambda>n. take n (dir @ rest)) ` set [1 ..< ?n]"
    by (rule imageI)
  then have "dir \<in> set (candidates (dir_only p) d (dir @ rest))"
    by (simp add: candidates_def)
  with assms(1) show ?thesis
    by (auto simp: pattern_matches_def list_ex_iff)
qed

lemma split_relative_path_str:
  assumes "ns \<noteq> []" and "\<forall>n\<in>set ns. CHR ''/'' \<notin> set n \<and> sep \<notin> set n"
  shows "split_slash (relative_path_str sep ns) = ns"
  using assms by (simp add: relative_path_str_join split_slash_join)

section \<open>The claims\<close>

text \<open>
  C1: for every root directory and every matcher, \<^verbatim>\<open>gather_files_to_include\<close> returns,
  in traversal order, exactly the entries that are files and for which the matcher,
  called on the normalized root-relative path, answers false.
\<close>

theorem gather_included_iff_not_matched:
  "gather_files_to_include sep t root_dir spec_match =
     Inr (map (file_entry root_dir)
            (filter (\<lambda>e. is_file (snd e) \<and> \<not> spec_match (relative_path_str sep (fst e)))
               (entries t)))"
proof -
  have "kept sep spec_match =
          (\<lambda>e. is_file (snd e) \<and> \<not> spec_match (relative_path_str sep (fst e)))"
    by (simp add: fun_eq_iff kept_def)
  then show ?thesis
    using gather_files_to_include_eq [of sep t root_dir spec_match] by simp
qed

theorem gather_included_iff_not_matched_witness:
  "gather_files_to_include (CHR ''/'') symlink_tree example_root (\<lambda>s. s = ''latest.md'') =
     Inr [(\<lparr>anchor = ''/'', names = [''home'', ''proj'', ''docs'', ''a.md'']\<rparr>,
           \<lparr>anchor = [], names = [''docs'', ''a.md'']\<rparr>)]"
  using gather_included_iff_not_matched
          [of "CHR ''/''" symlink_tree example_root "\<lambda>s. s = ''latest.md''"]
  by (simp add: symlink_tree_def example_root_def file_entry_def relative_path_str_def
        str_path_def str_replace_def)

text \<open>
  C2: whatever the tree, the pattern set that \<^verbatim>\<open>load_gitignore\<close> returns is the
  patterns of the lines of \<^verbatim>\<open>.gitignore\<close> (none when there is no such file), in their
  order, followed by the four default patterns: the directory patterns \<^verbatim>\<open>.git/\<close> and
  \<^verbatim>\<open>__pycache__/\<close>, the glob \<^verbatim>\<open>*.pyc\<close> and the name \<^verbatim>\<open>.DS_Store\<close>.
\<close>

theorem load_gitignore_rules:
  "load_gitignore t =
     from_lines (case gitignore t of None \<Rightarrow> [] | Some text \<Rightarrow> readlines text) @ default_patterns
   \<and> map raw (load_gitignore t) =
     filter is_rule (map rstrip (case gitignore t of None \<Rightarrow> [] | Some text \<Rightarrow> readlines text))
       @ [''.git/'', ''__pycache__/'', ''*.pyc'', ''.DS_Store'']"
proof -
  have a: "load_gitignore t =
     from_lines (case gitignore t of None \<Rightarrow> [] | Some text \<Rightarrow> readlines text) @ default_patterns"
    by (simp add: load_gitignore_def from_lines_append from_lines_defaults)
  have "map raw default_patterns = [''.git/'', ''__pycache__/'', ''*.pyc'', ''.DS_Store'']"
    by (simp add: default_patterns_def)
  with a show ?thesis
    by (simp add: raw_from_lines)
qed

theorem load_gitignore_rules_witness:
  "load_gitignore symlink_tree = default_patterns
   \<and> map raw (load_gitignore ignore_tree)
       = [''*.log'', ''build/'', ''.git/'', ''__pycache__/'', ''*.pyc'', ''.DS_Store'']"
proof -
  have n: "gitignore symlink_tree = None"
    by (simp add: symlink_tree_def)
  have g: "gitignore ignore_tree = Some ignore_text"
    by (simp add: ignore_tree_def)
  have f: "filter is_rule (map rstrip (readlines ignore_text)) = [''*.log'', ''build/'']"
    by code_simp
  have "load_gitignore symlink_tree = default_patterns"
    using load_gitignore_rules [of symlink_tree, THEN conjunct1] by (simp add: n from_lines_def)
  moreover have "map raw (load_gitignore ignore_tree)
       = [''*.log'', ''build/'', ''.git/'', ''__pycache__/'', ''*.pyc'', ''.DS_Store'']"
    using load_gitignore_rules [of ignore_tree, THEN conjunct2]
    by (simp only: g option.case f append.simps)
  ultimately show ?thesis by blast
qed

text \<open>
  C3: blank lines and lines that begin with \<^verbatim>\<open>#\<close> contribute no pattern: the pattern
  set is the one built from the remaining lines, and none of its patterns is blank or a
  comment.
\<close>

theorem blank_and_comment_lines_give_no_pattern:
  "load_gitignore t =
     from_lines (filter (\<lambda>l. \<not> is_blank l \<and> \<not> is_comment l)
                   (case gitignore t of None \<Rightarrow> [] | Some text \<Rightarrow> readlines text))
       @ default_patterns
   \<and> list_all (\<lambda>p. \<not> is_blank (raw p) \<and> \<not> is_comment (raw p)) (load_gitignore t)"
proof -
  have "load_gitignore t =
     from_lines (case gitignore t of None \<Rightarrow> [] | Some text \<Rightarrow> readlines text) @ default_patterns"
    by (simp add: load_gitignore_def from_lines_append from_lines_defaults)
  moreover have "list_all (\<lambda>p. \<not> is_blank (raw p) \<and> \<not> is_comment (raw p)) (load_gitignore t)"
    unfolding load_gitignore_def Let_def by (rule from_lines_rules)
  ultimately show ?thesis
    by (simp add: from_lines_filter)
qed

theorem blank_and_comment_lines_give_no_pattern_witness:
  "readlines ignore_text
     = [''# logs'' @ [CHR 0x0A], ''*.log'' @ [CHR 0x0A], [CHR 0x0A], ''build/'' @ [CHR 0x0A]]
   \<and> load_gitignore ignore_tree
     = from_lines [''*.log'' @ [CHR 0x0A], ''build/'' @ [CHR 0x0A]] @ default_patterns"
proof -
  have l: "readlines ignore_text
     = [''# logs'' @ [CHR 0x0A], ''*.log'' @ [CHR 0x0A], [CHR 0x0A], ''build/'' @ [CHR 0x0A]]"
    by (simp add: ignore_text_def)
  have g: "gitignore ignore_tree = Some ignore_text"
    by (simp add: ignore_tree_def)
  have f: "filter (\<lambda>l. \<not> is_blank l \<and> \<not> is_comment l)
          [''# logs'' @ [CHR 0x0A], ''*.log'' @ [CHR 0x0A], [CHR 0x0A], ''build/'' @ [CHR 0x0A]]
        = [''*.log'' @ [CHR 0x0A], ''build/'' @ [CHR 0x0A]]"
    by (simp add: is_blank_def is_comment_def is_space_def)
  have "load_gitignore ignore_tree
     = from_lines [''*.log'' @ [CHR 0x0A], ''build/'' @ [CHR 0x0A]] @ default_patterns"
    using blank_and_comment_lines_give_no_pattern [of ignore_tree, THEN conjunct1]
    by (simp only: g option.case l f)
  with l show ?thesis by blast
qed

text \<open>
  C4, as amended: when a pattern set holds a directory-only pattern that is not negated,
  every file beneath a directory that the pattern matches, at any depth, is excluded by
  the matcher and absent from the result of \<^verbatim>\<open>gather_files_to_include\<close>, provided no
  negated pattern later in the set matches the file's path.
\<close>

theorem dir_only_pattern_excludes_beneath:
  assumes "dir_only p" and "\<not> negated p"
    and "seg_match (effective_segs p) dir" and "dir \<noteq> []" and "rest \<noteq> []"
    and "\<forall>n\<in>set (dir @ rest). CHR ''/'' \<notin> set n \<and> sep \<notin> set n"
    and "\<forall>q\<in>set after. negated q \<longrightarrow> \<not> pattern_matches q (dir @ rest) False"
  shows "match_file (before @ p # after) (relative_path_str sep (dir @ rest)) \<and>
         (\<exists>files. gather_files_to_include sep t root_dir (match_file (before @ p # after))
                     = Inr files \<and>
                   (\<forall>(a, r)\<in>set files. names r \<noteq> dir @ rest))"
proof -
  let ?ps = "before @ p # after"
  have ss: "split_slash (relative_path_str sep (dir @ rest)) = dir @ rest"
    using assms(4,6) by (intro split_relative_path_str) auto
  have "pattern_matches p (dir @ rest) False"
    using assms(3,4,5) by (rule pattern_matches_beneath)
  with assms(2) have x: "matches_from False (before @ [p]) (dir @ rest) False"
    by (simp add: matches_from_append)
  have "matches_from False ?ps (dir @ rest) False
          = matches_from (matches_from False (before @ [p]) (dir @ rest) False) after
              (dir @ rest) False"
    using matches_from_append [of False "before @ [p]" after "dir @ rest" False] by simp
  with x matches_from_stays_excluded [OF assms(7)]
  have "matches_from False ?ps (dir @ rest) False"
    by simp
  then have m: "match_file ?ps (relative_path_str sep (dir @ rest))"
    by (simp add: match_file_def matches_def ss)
  let ?files = "map (file_entry root_dir) (filter (kept sep (match_file ?ps)) (entries t))"
  have "names r \<noteq> dir @ rest" if "(a, r) \<in> set ?files" for a r
    using gathered_entry [OF that] m by auto
  then show ?thesis
    using m gather_files_to_include_eq [of sep t root_dir "match_file ?ps"] by blast
qed

theorem dir_only_pattern_excludes_beneath_witness:
  "load_gitignore git_tree = default_patterns
   \<and> match_file default_patterns ''.git/objects/ab''
   \<and> gather_files_to_include (CHR ''/'') git_tree example_root (match_file default_patterns)
      = Inr [(\<lparr>anchor = ''/'', names = [''home'', ''proj'', ''a.py'']\<rparr>,
              \<lparr>anchor = [], names = [''a.py'']\<rparr>)]"
proof -
  let ?p = "\<lparr>raw = ''.git/'', negated = False, anchored = False, dir_only = True,
              segs = [''.git'']\<rparr>"
  have a: "dir_only ?p" and b: "\<not> negated ?p"
    by simp_all
  have c: "seg_match (effective_segs ?p) [''.git'']"
    by code_simp
  have d: "[''.git''] \<noteq> []" and e: "[''objects'', ''ab''] \<noteq> []"
    by simp_all
  have f: "\<forall>n\<in>set ([''.git''] @ [''objects'', ''ab'']). CHR ''/'' \<notin> set n \<and> CHR ''/'' \<notin> set n"
    by simp
  have g: "\<forall>q\<in>set (tl default_patterns).
             negated q \<longrightarrow> \<not> pattern_matches q ([''.git''] @ [''objects'', ''ab'']) False"
    by (simp add: default_patterns_def)
  have ps: "[] @ ?p # tl default_patterns = default_patterns"
    by (simp add: default_patterns_def)
  have rp: "relative_path_str (CHR ''/'') ([''.git''] @ [''objects'', ''ab'']) = ''.git/objects/ab''"
    by code_simp
  have "match_file default_patterns ''.git/objects/ab''"
    using dir_only_pattern_excludes_beneath [OF a b c d e f g, of "[]" git_tree example_root]
    by (simp only: ps rp)
  moreover have "load_gitignore git_tree = default_patterns"
    by code_simp
  moreover have "gather_files_to_include (CHR ''/'') git_tree example_root
                   (match_file default_patterns)
      = Inr [(\<lparr>anchor = ''/'', names = [''home'', ''proj'', ''a.py'']\<rparr>,
              \<lparr>anchor = [], names = [''a.py'']\<rparr>)]"
    by code_simp
  ultimately show ?thesis by blast
qed

text \<open>
  C4 as stated fails: with the lines \<^verbatim>\<open>build/\<close> and \<^verbatim>\<open>!build/keep.txt\<close>, the file
  \<^verbatim>\<open>build/keep.txt\<close> lies beneath the directory that the directory-only pattern matches,
  and is returned.
\<close>

theorem negation_beneath_dir_pattern_included:
  "map raw (load_gitignore negated_inside_tree)
     = [''build/'', ''!build/keep.txt'', ''.git/'', ''__pycache__/'', ''*.pyc'', ''.DS_Store'']
   \<and> dir_only (parse_pattern ''build/'')
   \<and> pattern_matches (parse_pattern ''build/'') [''build'', ''keep.txt''] False
   \<and> \<not> match_file (load_gitignore negated_inside_tree) ''build/keep.txt''
   \<and> gather_files_to_include (CHR ''/'') negated_inside_tree example_root
        (match_file (load_gitignore negated_inside_tree))
      = Inr [(\<lparr>anchor = ''/'', names = [''home'', ''proj'', ''.gitignore'']\<rparr>,
              \<lparr>anchor = [], names = [''.gitignore'']\<rparr>),
             (\<lparr>anchor = ''/'', names = [''home'', ''proj'', ''build'', ''keep.txt'']\<rparr>,
              \<lparr>anchor = [], names = [''build'', ''keep.txt'']\<rparr>)]"
  by code_simp

text \<open>
  C5, as amended: when a negated pattern comes after a broader excluding pattern and a
  path is matched by both, the patterns up to the excluding one exclude the path and the
  whole set re-includes it, provided no pattern after the negated one excludes it again.
  This is so whatever stands between the two, a directory pattern that excludes the
  directory of the path included: the matcher keeps no record of excluded directories.
\<close>

theorem negation_reincludes:
  assumes "\<not> negated p" and "pattern_matches p (split_slash file) False"
    and "negated q" and "pattern_matches q (split_slash file) False"
    and "\<forall>r\<in>set after. pattern_matches r (split_slash file) False \<longrightarrow> negated r"
  shows "match_file (before @ [p]) file \<and> \<not> match_file (before @ p # mid @ q # after) file"
proof -
  let ?ss = "split_slash file"
  have "matches_from False (before @ [p]) ?ss False"
    using assms(1,2) by (simp add: matches_from_append)
  then have a: "match_file (before @ [p]) file"
    by (simp add: match_file_def matches_def)
  have "before @ p # mid @ q # after = (before @ p # mid @ [q]) @ after"
    by simp
  then have "matches_from False (before @ p # mid @ q # after) ?ss False
          = matches_from (matches_from False (before @ p # mid @ [q]) ?ss False) after ?ss False"
    by (simp only: matches_from_append)
  moreover have "\<not> matches_from False (before @ p # mid @ [q]) ?ss False"
    using assms(3,4)
      matches_from_append [of False "before @ p # mid" "[q]" ?ss False]
    by simp
  ultimately have "\<not> matches_from False (before @ p # mid @ q # after) ?ss False"
    using matches_from_stays_included [OF assms(5)] by simp
  with a show ?thesis
    by (simp add: match_file_def matches_def)
qed

theorem negation_reincludes_witness:
  "match_file (from_lines [''*.txt'']) ''keep.txt''
   \<and> \<not> match_file (load_gitignore negation_tree) ''keep.txt''"
proof -
  let ?p = "parse_pattern ''*.txt''" and ?m = "parse_pattern ''build/''"
  let ?q = "parse_pattern ''!keep.txt''"
  have a: "\<not> negated ?p" and b: "pattern_matches ?p (split_slash ''keep.txt'') False"
    and c: "negated ?q" and d: "pattern_matches ?q (split_slash ''keep.txt'') False"
    by code_simp+
  have e: "\<forall>r\<in>set default_patterns.
             pattern_matches r (split_slash ''keep.txt'') False \<longrightarrow> negated r"
    unfolding default_patterns_def by code_simp
  have l: "load_gitignore negation_tree = [] @ ?p # [?m] @ ?q # default_patterns"
    by code_simp
  have f: "from_lines [''*.txt''] = [] @ [?p]"
    by code_simp
  show ?thesis
    unfolding l f by (rule negation_reincludes [OF a b c d e])
qed

text \<open>
  C5 as stated fails in its exception: with the lines \<^verbatim>\<open>*.txt\<close>, \<^verbatim>\<open>build/\<close> and
  \<^verbatim>\<open>!keep.txt\<close>, the file \<^verbatim>\<open>build/keep.txt\<close> lies inside a directory that the directory
  pattern excludes, and the negation re-includes it all the same.
\<close>

theorem negation_inside_excluded_dir_reincludes:
  "map raw (load_gitignore negation_tree)
     = [''*.txt'', ''build/'', ''!keep.txt'', ''.git/'', ''__pycache__/'', ''*.pyc'', ''.DS_Store'']
   \<and> match_file (from_lines [''*.txt'']) ''build/keep.txt''
   \<and> match_file (from_lines [''build/'']) ''build/keep.txt''
   \<and> match_file (from_lines [''*.txt'', ''build/'']) ''build/keep.txt''
   \<and> \<not> match_file (load_gitignore negation_tree) ''build/keep.txt''
   \<and> gather_files_to_include (CHR ''/'') negation_tree example_root
        (match_file (load_gitignore negation_tree))
      = Inr [(\<lparr>anchor = ''/'', names = [''home'', ''proj'', ''.gitignore'']\<rparr>,
              \<lparr>anchor = [], names = [''.gitignore'']\<rparr>),
             (\<lparr>anchor = ''/'', names = [''home'', ''proj'', ''build'', ''keep.txt'']\<rparr>,
              \<lparr>anchor = [], names = [''build'', ''keep.txt'']\<rparr>),
             (\<lparr>anchor = ''/'', names = [''home'', ''proj'', ''keep.txt'']\<rparr>,
              \<lparr>anchor = [], names = [''keep.txt'']\<rparr>)]"
  by code_simp

text \<open>
  C6, as amended: the strings passed to the matcher are, in order, those of the files
  visited, and the string of a file never contains the platform's separator unless
  that is the forward slash: it contains no backslash when the separator is the
  backslash, and otherwise contains one only when one of the names on the file's own
  relative path does.
\<close>

theorem matcher_argument_separators:
  "\<exists>st. gather_run sep t root_dir spec_match = Inr st \<and>
     list_all2
       (\<lambda>e s. s = relative_path_str sep (fst e) \<and>
               (sep \<noteq> CHR ''/'' \<longrightarrow> sep \<notin> set s) \<and>
               ((\<forall>n\<in>set (fst e). CHR 0x5C \<notin> set n) \<longrightarrow> CHR 0x5C \<notin> set s))
       (filter (is_file \<circ> snd) (entries t)) (match_calls st)"
proof -
  have a: "sep \<noteq> CHR ''/'' \<Longrightarrow> sep \<notin> set (relative_path_str sep ns)" for ns
    by (simp add: relative_path_str_def str_replace_absent)
  have b: "CHR 0x5C \<notin> set (relative_path_str sep ns)"
    if "\<forall>n\<in>set ns. CHR 0x5C \<notin> set n" for ns
  proof
    assume "CHR 0x5C \<in> set (relative_path_str sep ns)"
    then have "CHR 0x5C \<in> set (str_path sep \<lparr>anchor = [], names = ns\<rparr>)" and "CHR 0x5C \<noteq> sep"
      using str_replace_set [of "CHR 0x5C" _ sep "CHR ''/''"]
      by (auto simp: relative_path_str_def)
    then show False
      using that set_join_names [of "CHR 0x5C" sep ns]
      by (auto simp: str_path_def split: if_splits)
  qed
  have "list_all2
       (\<lambda>e s. s = relative_path_str sep (fst e) \<and>
               (sep \<noteq> CHR ''/'' \<longrightarrow> sep \<notin> set s) \<and>
               ((\<forall>n\<in>set (fst e). CHR 0x5C \<notin> set n) \<longrightarrow> CHR 0x5C \<notin> set s))
       es (map (relative_path_str sep \<circ> fst) es)" for es :: "(string list \<times> file_kind) list"
    using a b by (induction es) auto
  then show ?thesis
    unfolding gather_run_eq by simp
qed

theorem matcher_argument_separators_witness:
  "gather_run (CHR ''/'') mixed_names_tree example_root (match_file []) =
     Inr \<lparr>files_to_include =
            [(\<lparr>anchor = ''/'', names = [''home'', ''proj'', [CHR ''a'', CHR 0x5C, CHR ''b'']]\<rparr>,
              \<lparr>anchor = [], names = [[CHR ''a'', CHR 0x5C, CHR ''b'']]\<rparr>),
             (\<lparr>anchor = ''/'', names = [''home'', ''proj'', ''sub'', ''c'']\<rparr>,
              \<lparr>anchor = [], names = [''sub'', ''c'']\<rparr>)],
          match_calls = [[CHR ''a'', CHR 0x5C, CHR ''b''], ''sub/c'']\<rparr>
   \<and> CHR 0x5C \<notin> set ''sub/c''
   \<and> gather_run (CHR 0x5C) nested_tree windows_root (match_file []) =
     Inr \<lparr>files_to_include =
            [(\<lparr>anchor = ''C:'' @ [CHR 0x5C], names = [''proj'', ''sub'', ''dir'', ''file.txt'']\<rparr>,
              \<lparr>anchor = [], names = [''sub'', ''dir'', ''file.txt'']\<rparr>)],
          match_calls = [''sub/dir/file.txt'']\<rparr>
   \<and> CHR 0x5C \<notin> set ''sub/dir/file.txt''"
proof -
  have g: "gather_run (CHR ''/'') mixed_names_tree example_root (match_file []) =
     Inr \<lparr>files_to_include =
            [(\<lparr>anchor = ''/'', names = [''home'', ''proj'', [CHR ''a'', CHR 0x5C, CHR ''b'']]\<rparr>,
              \<lparr>anchor = [], names = [[CHR ''a'', CHR 0x5C, CHR ''b'']]\<rparr>),
             (\<lparr>anchor = ''/'', names = [''home'', ''proj'', ''sub'', ''c'']\<rparr>,
              \<lparr>anchor = [], names = [''sub'', ''c'']\<rparr>)],
          match_calls = [[CHR ''a'', CHR 0x5C, CHR ''b''], ''sub/c'']\<rparr>"
    by code_simp
  have f: "filter (is_file \<circ> snd) (entries mixed_names_tree)
             = [([[CHR ''a'', CHR 0x5C, CHR ''b'']], Plain Regular), ([''sub'', ''c''], Plain Regular)]"
    by (simp add: mixed_names_tree_def)
  have "(\<forall>n\<in>set [''sub'', ''c'']. CHR 0x5C \<notin> set n) \<longrightarrow> CHR 0x5C \<notin> set ''sub/c''"
    using matcher_argument_separators [of "CHR ''/''" mixed_names_tree example_root "match_file []"]
    unfolding g f by (simp add: relative_path_str_def str_path_def str_replace_def)
  then have "CHR 0x5C \<notin> set ''sub/c''"
    by simp
  moreover have h: "gather_run (CHR 0x5C) nested_tree windows_root (match_file []) =
     Inr \<lparr>files_to_include =
            [(\<lparr>anchor = ''C:'' @ [CHR 0x5C], names = [''proj'', ''sub'', ''dir'', ''file.txt'']\<rparr>,
              \<lparr>anchor = [], names = [''sub'', ''dir'', ''file.txt'']\<rparr>)],
          match_calls = [''sub/dir/file.txt'']\<rparr>"
    by code_simp
  moreover have k: "filter (is_file \<circ> snd) (entries nested_tree)
             = [([''sub'', ''dir'', ''file.txt''], Plain Regular)]"
    by (simp add: nested_tree_def)
  have "CHR 0x5C \<noteq> CHR ''/'' \<longrightarrow> CHR 0x5C \<notin> set ''sub/dir/file.txt''"
    using matcher_argument_separators [of "CHR 0x5C" nested_tree windows_root "match_file []"]
    unfolding h k by (simp add: relative_path_str_def str_path_def str_replace_def)
  then have "CHR 0x5C \<notin> set ''sub/dir/file.txt''"
    by simp
  ultimately show ?thesis
    using g by blast
qed

text \<open>
  C6 as stated fails: with the forward slash as separator, a file whose name contains
  a backslash reaches the matcher with that backslash.
\<close>

theorem backslash_reaches_matcher:
  "gather_run (CHR ''/'') backslash_name_tree example_root
     (match_file (load_gitignore backslash_name_tree)) =
     Inr \<lparr>files_to_include =
            [(\<lparr>anchor = ''/'', names = [''home'', ''proj'', [CHR ''a'', CHR 0x5C, CHR ''b'']]\<rparr>,
              \<lparr>anchor = [], names = [[CHR ''a'', CHR 0x5C, CHR ''b'']]\<rparr>)],
          match_calls = [[CHR ''a'', CHR 0x5C, CHR ''b'']]\<rparr>"
  by code_simp

text \<open>
  C7, as amended: the relative component of a returned pair is the path object that
  \<^verbatim>\<open>relative_to\<close> gave; printed, its names are joined by the platform's separator,
  and replacing that separator by the forward slash (as is done for the matcher and for
  the headings of the output) gives the names joined by forward slashes.
\<close>

theorem relative_component_separators:
  assumes "\<forall>e\<in>set (entries t). fst e \<noteq> [] \<and> (\<forall>n\<in>set (fst e). sep \<notin> set n)"
  shows "\<exists>files. gather_files_to_include sep t root_dir spec_match = Inr files \<and>
     (\<forall>(a, r)\<in>set files.
         str_path sep r = join_names sep (names r) \<and>
         str_replace (str_path sep r) sep (CHR ''/'') = join_names (CHR ''/'') (names r))"
proof -
  let ?files = "map (file_entry root_dir) (filter (kept sep spec_match) (entries t))"
  have "str_path sep r = join_names sep (names r) \<and>
        str_replace (str_path sep r) sep (CHR ''/'') = join_names (CHR ''/'') (names r)"
    if "(a, r) \<in> set ?files" for a r
  proof -
    from gathered_entry [OF that] obtain k
      where e: "(names r, k) \<in> set (entries t)" and r: "r = \<lparr>anchor = [], names = names r\<rparr>"
      by blast
    from e assms have ne: "names r \<noteq> []" and wf: "\<forall>n\<in>set (names r). sep \<notin> set n"
      by auto
    have "anchor r = []"
      using r by (metis path.select_convs(1))
    with ne have s: "str_path sep r = join_names sep (names r)"
      by (simp add: str_path_def)
    with wf show ?thesis
      by (simp add: join_names_replace)
  qed
  then show ?thesis
    using gather_files_to_include_eq [of sep t root_dir spec_match] by blast
qed

theorem relative_component_separators_witness:
  "gather_files_to_include (CHR 0x5C) nested_tree windows_root (match_file []) =
     Inr [(\<lparr>anchor = ''C:'' @ [CHR 0x5C], names = [''proj'', ''sub'', ''dir'', ''file.txt'']\<rparr>,
           \<lparr>anchor = [], names = [''sub'', ''dir'', ''file.txt'']\<rparr>)]
   \<and> str_replace (str_path (CHR 0x5C) \<lparr>anchor = [], names = [''sub'', ''dir'', ''file.txt'']\<rparr>)
         (CHR 0x5C) (CHR ''/'') = ''sub/dir/file.txt''"
proof -
  have wf: "\<forall>e\<in>set (entries nested_tree). fst e \<noteq> [] \<and> (\<forall>n\<in>set (fst e). CHR 0x5C \<notin> set n)"
    by (simp add: nested_tree_def)
  have g: "gather_files_to_include (CHR 0x5C) nested_tree windows_root (match_file []) =
     Inr [(\<lparr>anchor = ''C:'' @ [CHR 0x5C], names = [''proj'', ''sub'', ''dir'', ''file.txt'']\<rparr>,
           \<lparr>anchor = [], names = [''sub'', ''dir'', ''file.txt'']\<rparr>)]"
    by (simp add: gather_files_to_include_eq nested_tree_def windows_root_def file_entry_def
        kept_def match_file_def matches_def)
  from relative_component_separators [OF wf, of windows_root "match_file []"] g
  have "str_replace (str_path (CHR 0x5C) \<lparr>anchor = [], names = [''sub'', ''dir'', ''file.txt'']\<rparr>)
         (CHR 0x5C) (CHR ''/'') = join_names (CHR ''/'') [''sub'', ''dir'', ''file.txt'']"
    by auto
  with g show ?thesis by simp
qed

text \<open>
  C7 as stated fails: with the backslash as separator, the relative component of a
  returned pair prints with backslashes.
\<close>

theorem native_separator_in_entry:
  "gather_files_to_include (CHR 0x5C) nested_tree windows_root
     (match_file (load_gitignore nested_tree)) =
     Inr [(\<lparr>anchor = ''C:'' @ [CHR 0x5C], names = [''proj'', ''sub'', ''dir'', ''file.txt'']\<rparr>,
           \<lparr>anchor = [], names = [''sub'', ''dir'', ''file.txt'']\<rparr>)]
   \<and> str_path (CHR 0x5C) \<lparr>anchor = [], names = [''sub'', ''dir'', ''file.txt'']\<rparr>
       = ''sub'' @ [CHR 0x5C] @ ''dir'' @ [CHR 0x5C] @ ''file.txt''"
  by code_simp

text \<open>
  C8, as amended: an entry is emitted only when \<^verbatim>\<open>is_file()\<close> holds of it, that is when
  it is a regular file or a symbolic link that resolves to a regular file; directories,
  devices, sockets and other links are never emitted.
\<close>

theorem only_is_file_entries_emitted:
  "\<exists>files. gather_files_to_include sep t root_dir spec_match = Inr files \<and>
     (\<forall>(a, r)\<in>set files. \<exists>k. (names r, k) \<in> set (entries t) \<and>
         a = root_dir\<lparr>names := names root_dir @ names r\<rparr> \<and>
         (k = Plain Regular \<or> k = Symlink (Some Regular)))"
proof -
  let ?files = "map (file_entry root_dir) (filter (kept sep spec_match) (entries t))"
  have "\<exists>k. (names r, k) \<in> set (entries t) \<and>
          a = root_dir\<lparr>names := names root_dir @ names r\<rparr> \<and>
          (k = Plain Regular \<or> k = Symlink (Some Regular))"
    if "(a, r) \<in> set ?files" for a r
    using gathered_entry [OF that] is_file_iff by blast
  then show ?thesis
    using gather_files_to_include_eq [of sep t root_dir spec_match] by blast
qed

theorem only_is_file_entries_emitted_witness:
  "gather_files_to_include (CHR ''/'') symlink_tree example_root (match_file []) =
     Inr [(\<lparr>anchor = ''/'', names = [''home'', ''proj'', ''docs'', ''a.md'']\<rparr>,
           \<lparr>anchor = [], names = [''docs'', ''a.md'']\<rparr>),
          (\<lparr>anchor = ''/'', names = [''home'', ''proj'', ''latest.md'']\<rparr>,
           \<lparr>anchor = [], names = [''latest.md'']\<rparr>)]
   \<and> ([''docs'', ''a.md''], Plain Regular) \<in> set (entries symlink_tree)
   \<and> ([''latest.md''], Symlink (Some Regular)) \<in> set (entries symlink_tree)"
  using only_is_file_entries_emitted [of "CHR ''/''" symlink_tree example_root "match_file []"]
  by (simp add: gather_files_to_include_eq symlink_tree_def example_root_def file_entry_def
        kept_def match_file_def matches_def)

text \<open>
  C8 as stated fails: a symbolic link to a regular file is emitted.
\<close>

theorem symlink_to_file_emitted:
  "entries symlink_tree ! 2 = ([''latest.md''], Symlink (Some Regular))
   \<and> is_symlink (Symlink (Some Regular))
   \<and> gather_files_to_include (CHR ''/'') symlink_tree example_root
        (match_file (load_gitignore symlink_tree))
      = Inr [(\<lparr>anchor = ''/'', names = [''home'', ''proj'', ''docs'', ''a.md'']\<rparr>,
              \<lparr>anchor = [], names = [''docs'', ''a.md'']\<rparr>),
             (\<lparr>anchor = ''/'', names = [''home'', ''proj'', ''latest.md'']\<rparr>,
              \<lparr>anchor = [], names = [''latest.md'']\<rparr>)]"
  by code_simp

text \<open>
  C9: when the root directory is not a directory, or when no file is to be included,
  \<^verbatim>\<open>main\<close> prints its message (directory not found, or no files to include) and
  returns; no output file is written.
\<close>

theorem main_stops_without_output:
  assumes "\<not> directory_is_dir r \<or>
           gather_files_to_include (os_sep r) (snapshot r) (directory r)
             (match_file (load_gitignore (snapshot r))) = Inr []"
  shows "\<exists>evs. main r = Inr evs \<and> output_files evs = [] \<and>
           evs = (if directory_is_dir r
                  then [Print (StartingToProcess (str_path (os_sep r) (directory r))),
                        Print NoFilesToInclude]
                  else [Print (DirectoryNotFound (str_path (os_sep r) (directory r)))])"
  using assms by (auto simp: main_def Let_def)

theorem main_stops_without_output_witness:
  "main missing_run = Inr [Print (DirectoryNotFound ''/nowhere'')]
   \<and> main all_ignored_run = Inr [Print (StartingToProcess ''/home/proj''), Print NoFilesToInclude]
   \<and> output_files [Print (StartingToProcess ''/home/proj''), Print NoFilesToInclude] = []"
proof -
  have a: "\<not> directory_is_dir missing_run \<or>
           gather_files_to_include (os_sep missing_run) (snapshot missing_run)
             (directory missing_run) (match_file (load_gitignore (snapshot missing_run))) = Inr []"
    by (simp add: missing_run_def)
  have "gather_files_to_include (os_sep all_ignored_run) (snapshot all_ignored_run)
          (directory all_ignored_run) (match_file (load_gitignore (snapshot all_ignored_run)))
        = Inr []"
    by code_simp
  then have b: "\<not> directory_is_dir all_ignored_run \<or>
           gather_files_to_include (os_sep all_ignored_run) (snapshot all_ignored_run)
             (directory all_ignored_run)
             (match_file (load_gitignore (snapshot all_ignored_run))) = Inr []"
    by blast
  have c: "directory_is_dir all_ignored_run" "\<not> directory_is_dir missing_run"
    by (simp_all add: all_ignored_run_def missing_run_def)
  have d: "str_path (os_sep missing_run) (directory missing_run) = ''/nowhere''"
    "str_path (os_sep all_ignored_run) (directory all_ignored_run) = ''/home/proj''"
    by code_simp+
  show ?thesis
    using main_stops_without_output [OF a] main_stops_without_output [OF b]
    by (simp add: c d)
qed

text \<open>
  C10: in every pair that \<^verbatim>\<open>gather_files_to_include\<close> returns, the second component is
  a relative path, joining the root directory with it gives the first component, and
  the first component made relative to the root is the second.
\<close>

theorem entries_relative_to_root:
  "\<exists>files. gather_files_to_include sep t root_dir spec_match = Inr files \<and>
     (\<forall>(a, r)\<in>set files.
         anchor r = [] \<and> joinpath root_dir r = a \<and> relative_to a root_dir = Inr r)"
proof -
  let ?files = "map (file_entry root_dir) (filter (kept sep spec_match) (entries t))"
  have "anchor r = [] \<and> joinpath root_dir r = a \<and> relative_to a root_dir = Inr r"
    if "(a, r) \<in> set ?files" for a r
  proof -
    from gathered_entry [OF that]
    have a: "a = root_dir\<lparr>names := names root_dir @ names r\<rparr>"
      and r: "r = \<lparr>anchor = [], names = names r\<rparr>"
      by blast+
    have "anchor r = []"
      using r by (metis path.select_convs(1))
    moreover have "joinpath root_dir r = a"
      using a \<open>anchor r = []\<close> by (simp add: joinpath_def)
    moreover have "relative_to a root_dir = Inr r"
      using a r relative_to_child [of root_dir "names r"] by simp
    ultimately show ?thesis by blast
  qed
  then show ?thesis
    using gather_files_to_include_eq [of sep t root_dir spec_match] by blast
qed

theorem entries_relative_to_root_witness:
  "gather_files_to_include (CHR ''/'') symlink_tree example_root (match_file []) =
     Inr [(\<lparr>anchor = ''/'', names = [''home'', ''proj'', ''docs'', ''a.md'']\<rparr>,
           \<lparr>anchor = [], names = [''docs'', ''a.md'']\<rparr>),
          (\<lparr>anchor = ''/'', names = [''home'', ''proj'', ''latest.md'']\<rparr>,
           \<lparr>anchor = [], names = [''latest.md'']\<rparr>)]
   \<and> joinpath example_root \<lparr>anchor = [], names = [''docs'', ''a.md'']\<rparr>
       = \<lparr>anchor = ''/'', names = [''home'', ''proj'', ''docs'', ''a.md'']\<rparr>
   \<and> relative_to \<lparr>anchor = ''/'', names = [''home'', ''proj'', ''docs'', ''a.md'']\<rparr> example_root
       = Inr \<lparr>anchor = [], names = [''docs'', ''a.md'']\<rparr>"
proof -
  have g: "gather_files_to_include (CHR ''/'') symlink_tree example_root (match_file []) =
     Inr [(\<lparr>anchor = ''/'', names = [''home'', ''proj'', ''docs'', ''a.md'']\<rparr>,
           \<lparr>anchor = [], names = [''docs'', ''a.md'']\<rparr>),
          (\<lparr>anchor = ''/'', names = [''home'', ''proj'', ''latest.md'']\<rparr>,
           \<lparr>anchor = [], names = [''latest.md'']\<rparr>)]"
    by (simp add: gather_files_to_include_eq symlink_tree_def example_root_def file_entry_def
          kept_def match_file_def matches_def)
  with entries_relative_to_root [of "CHR ''/''" symlink_tree example_root "match_file []"]
  show ?thesis by auto
qed

end
